theory Spec2Isabelle
  imports Complex_Main
begin

section \<open>BrachioGraph: a shallow embedding of brachiograph.py\<close>

text \<open>
  Python's floats are modelled as the real numbers: every arithmetic operation is exact.
  Everything else the interpreter does is written out: a division by zero, a
  \<open>math\<close> function called outside its domain, an index out of range and a negative
  \<open>sleep\<close> are results \<open>Inl e\<close> of the operation that raises them.
\<close>

datatype error =
    CannotReach          \<comment> \<open>\<open>raise Exception(f"Cannot reach ...")\<close> in \<open>xy_to_angles\<close>\<close>
  | ValueError           \<comment> \<open>math domain error, \<open>min()\<close> of an empty set, unpacking, negative sleep\<close>
  | ZeroDivisionError
  | IndexError
  | TypeError
  | FileError            \<comment> \<open>\<open>open\<close> or \<open>json.load\<close> failing in \<open>plot_file\<close>\<close>

subsection \<open>The arithmetic of the interpreter\<close>

definition and_then :: "error + 'a \<Rightarrow> ('a \<Rightarrow> error + 'b) \<Rightarrow> error + 'b" where
  "and_then r f = (case r of Inl e \<Rightarrow> Inl e | Inr a \<Rightarrow> f a)"

definition py_div :: "real \<Rightarrow> real \<Rightarrow> error + real" where
  "py_div a b = (if b = 0 then Inl ZeroDivisionError else Inr (a / b))"

definition math_sqrt :: "real \<Rightarrow> error + real" where
  "math_sqrt v = (if v < 0 then Inl ValueError else Inr (sqrt v))"

definition math_asin :: "real \<Rightarrow> error + real" where
  "math_asin v = (if v < -1 \<or> 1 < v then Inl ValueError else Inr (arcsin v))"

definition math_acos :: "real \<Rightarrow> error + real" where
  "math_acos v = (if v < -1 \<or> 1 < v then Inl ValueError else Inr (arccos v))"

definition math_degrees :: "real \<Rightarrow> real" where
  "math_degrees r = r * 180 / pi"

definition math_radians :: "real \<Rightarrow> real" where
  "math_radians d = d * pi / 180"

text \<open>\<open>int(v)\<close> truncates towards zero.\<close>

definition py_int :: "real \<Rightarrow> int" where
  "py_int v = (if 0 \<le> v then \<lfloor>v\<rfloor> else \<lceil>v\<rceil>)"

text \<open>\<open>a or b\<close> on numbers: \<open>b\<close> when \<open>a\<close> is zero, else \<open>a\<close>.\<close>

definition py_or :: "'a::zero \<Rightarrow> 'a \<Rightarrow> 'a" where
  "py_or a b = (if a = 0 then b else a)"

subsection \<open>Trigonometric methods\<close>

text \<open>
  \<open>BrachioGraph.xy_to_angles\<close> and \<open>BrachioGraph.angles_to_xy\<close>; the two arm lengths
  \<open>self.INNER_ARM\<close> and \<open>self.OUTER_ARM\<close> are the first two arguments.
\<close>

definition xy_to_angles :: "real \<Rightarrow> real \<Rightarrow> real \<Rightarrow> real \<Rightarrow> error + (real \<times> real)" where
  "xy_to_angles INNER OUTER x y =
    and_then (math_sqrt (x\<^sup>2 + y\<^sup>2)) (\<lambda>hypotenuse.
    if hypotenuse > INNER + OUTER then Inl CannotReach
    else
      and_then (py_div x hypotenuse) (\<lambda>q.
      and_then (math_asin q) (\<lambda>hypotenuse_angle.
      and_then (py_div (hypotenuse\<^sup>2 + INNER\<^sup>2 - OUTER\<^sup>2) (2 * hypotenuse * INNER)) (\<lambda>c1.
      and_then (math_acos c1) (\<lambda>inner_angle.
      and_then (py_div (INNER\<^sup>2 + OUTER\<^sup>2 - hypotenuse\<^sup>2) (2 * INNER * OUTER)) (\<lambda>c2.
      and_then (math_acos c2) (\<lambda>outer_angle.
        let shoulder_motor_angle = hypotenuse_angle - inner_angle;
            elbow_motor_angle = pi - outer_angle
        in Inr (math_degrees shoulder_motor_angle, math_degrees elbow_motor_angle))))))))"

definition angles_to_xy :: "real \<Rightarrow> real \<Rightarrow> real \<Rightarrow> real \<Rightarrow> error + (real \<times> real)" where
  "angles_to_xy INNER OUTER shoulder_motor_angle elbow_motor_angle =
    (let elbow = math_radians elbow_motor_angle;
         shoulder = math_radians shoulder_motor_angle
     in
      and_then (math_sqrt (INNER\<^sup>2 + OUTER\<^sup>2 - 2 * INNER * OUTER * cos (pi - elbow))) (\<lambda>hypotenuse.
      and_then (py_div (hypotenuse\<^sup>2 + INNER\<^sup>2 - OUTER\<^sup>2) (2 * hypotenuse * INNER)) (\<lambda>c.
      and_then (math_acos c) (\<lambda>base_angle.
        let inner_angle = base_angle + shoulder
        in Inr (sin inner_angle * hypotenuse, cos inner_angle * hypotenuse)))))"

subsection \<open>Line-processing methods\<close>

text \<open>
  A point is a pair of coordinates, a line a list of points, the plot data a list of lines.
  The source rewrites the points in place; the model returns the rewritten lines. Points
  are values here: no two entries of the plot data are the same object.
\<close>

type_synonym point = "real \<times> real"
type_synonym line = "point list"
type_synonym box = "real \<times> real \<times> real \<times> real"

text \<open>
  The first loop of \<open>analyse_lines\<close>: \<open>zip(*line)\<close> is unpacked into two tuples, which
  raises on a line without points.
\<close>

fun collect_values :: "line list \<Rightarrow> real set \<times> real set \<Rightarrow> error + (real set \<times> real set)" where
  "collect_values [] acc = Inr acc"
| "collect_values (line # rest) (x_values_in_lines, y_values_in_lines) =
     (if line = [] then Inl ValueError
      else collect_values rest
             (x_values_in_lines \<union> set (map fst line), y_values_in_lines \<union> set (map snd line)))"

definition py_min :: "real set \<Rightarrow> error + real" where
  "py_min A = (if A = {} then Inl ValueError else Inr (Min A))"

definition py_max :: "real set \<Rightarrow> error + real" where
  "py_max A = (if A = {} then Inl ValueError else Inr (Max A))"

definition analyse_lines ::
  "line list \<Rightarrow> bool \<Rightarrow> box \<Rightarrow> error + (bool \<times> real \<times> real \<times> real \<times> real \<times> real)" where
  "analyse_lines lines rotate' bnds =
    and_then (collect_values lines ({}, {})) (\<lambda>(x_values_in_lines, y_values_in_lines).
    and_then (py_min x_values_in_lines) (\<lambda>min_x.
    and_then (py_max x_values_in_lines) (\<lambda>max_x.
    and_then (py_min y_values_in_lines) (\<lambda>min_y.
    and_then (py_max y_values_in_lines) (\<lambda>max_y.
      case bnds of (b0, b1, b2, b3) \<Rightarrow>
      let x_range = max_x - min_x; y_range = max_y - min_y;
          box_x_range = b2 - b0; box_y_range = b3 - b1;
          x_mid_point = (max_x + min_x) / 2; y_mid_point = (max_y + min_y) / 2;
          box_x_mid_point = (b0 + b2) / 2; box_y_mid_point = (b1 + b3) / 2
      in
        if (x_range \<ge> y_range \<and> box_x_range \<ge> box_y_range) \<or>
           (x_range \<le> y_range \<and> box_x_range \<le> box_y_range)
        then
          and_then (py_div x_range box_x_range) (\<lambda>dx.
          and_then (py_div y_range box_y_range) (\<lambda>dy.
            Inr (False, x_mid_point, y_mid_point, box_x_mid_point, box_y_mid_point, max dx dy)))
        else
          and_then (py_div x_range box_y_range) (\<lambda>dx.
          and_then (py_div y_range box_x_range) (\<lambda>dy.
            Inr (True, y_mid_point, x_mid_point, box_x_mid_point, box_y_mid_point, max dx dy))))))))"

text \<open>The body of the two nested loops of \<open>rotate_and_scale_lines\<close>, for one point.\<close>

definition scale_point ::
  "bool \<Rightarrow> bool \<Rightarrow> real \<Rightarrow> real \<Rightarrow> real \<Rightarrow> real \<Rightarrow> real \<Rightarrow> point \<Rightarrow> error + point" where
  "scale_point rotate' flip x_mid_point y_mid_point box_x_mid_point box_y_mid_point divider point =
    (let point = (if rotate' then (snd point, fst point) else point) in
      and_then (py_div (fst point - x_mid_point) divider) (\<lambda>x.
        let x = x + box_x_mid_point;
            x = (if flip \<noteq> rotate' then - x else x)
        in
          and_then (py_div (snd point - y_mid_point) divider) (\<lambda>y.
            let y = y + box_y_mid_point in Inr (x, y))))"

fun for_all :: "('a \<Rightarrow> error + 'b) \<Rightarrow> 'a list \<Rightarrow> error + 'b list" where
  "for_all f [] = Inr []"
| "for_all f (a # as) =
     and_then (f a) (\<lambda>b. and_then (for_all f as) (\<lambda>bs. Inr (b # bs)))"

definition rotate_and_scale_lines :: "line list \<Rightarrow> bool \<Rightarrow> bool \<Rightarrow> box \<Rightarrow> error + line list" where
  "rotate_and_scale_lines lines rotate' flip bnds =
    and_then (analyse_lines lines rotate' bnds)
      (\<lambda>(rotate, x_mid_point, y_mid_point, box_x_mid_point, box_y_mid_point, divider).
        for_all (for_all (scale_point rotate flip x_mid_point y_mid_point
                            box_x_mid_point box_y_mid_point divider)) lines)"

subsection \<open>The plotter and its hardware\<close>

text \<open>
  \<open>Bonnet\<close> wraps the servo driver of \<open>adafruit_servokit\<close>, which is not part of the
  repository: an assignment \<open>self.kit.servo[i].angle = a\<close> is recorded as the event
  \<open>Servo i a\<close>, and \<open>sleep(t)\<close> as \<open>Sleep t\<close>, in the order in which they happen.
\<close>

datatype event = Servo nat real | Sleep real

text \<open>
  The fields of \<open>BrachioGraph\<close>, of its \<open>Bonnet\<close> (\<open>last_angles\<close>) and of its \<open>Pen\<close>
  (\<open>pin\<close>, \<open>angle_up\<close>, \<open>angle_down\<close>, \<open>transition_time\<close>), and the events so far.
\<close>

record plotter =
  INNER_ARM :: real
  OUTER_ARM :: real
  bounds :: "box option"
  wait :: real
  current_x :: real
  current_y :: real
  last_angles :: "real list"
  pin :: nat
  angle_up :: real
  angle_down :: real
  transition_time :: real
  events :: "event list"

text \<open>
  A method either raises, leaving the plotter as it was at that moment, or returns a
  value and the plotter after it.
\<close>

type_synonym 'a action = "plotter \<Rightarrow> (error \<times> plotter) + ('a \<times> plotter)"

definition do_then :: "'a action \<Rightarrow> ('a \<Rightarrow> 'b action) \<Rightarrow> 'b action" where
  "do_then m f s = (case m s of Inl e \<Rightarrow> Inl e | Inr (a, s') \<Rightarrow> f a s')"

definition lift :: "error + 'a \<Rightarrow> 'a action" where
  "lift r s = (case r of Inl e \<Rightarrow> Inl (e, s) | Inr a \<Rightarrow> Inr (a, s))"

fun for_each :: "'a list \<Rightarrow> ('a \<Rightarrow> unit action) \<Rightarrow> unit action" where
  "for_each [] body s = Inr ((), s)"
| "for_each (a # as) body s =
     (case body a s of Inl e \<Rightarrow> Inl e | Inr (_, s') \<Rightarrow> for_each as body s')"

definition sleep :: "real \<Rightarrow> unit action" where
  "sleep t s = (if t < 0 then Inl (ValueError, s) else Inr ((), s\<lparr>events := events s @ [Sleep t]\<rparr>))"

subsubsection \<open>Bonnet\<close>

definition set_angle :: "nat \<Rightarrow> real \<Rightarrow> unit action" where
  "set_angle i a s =
    (let a = (if i = 0 then a + 120 else a);
         s = s\<lparr>events := events s @ [Servo i a]\<rparr>
     in if i < length (last_angles s)
        then Inr ((), s\<lparr>last_angles := (last_angles s)[i := a]\<rparr>)
        else Inl (IndexError, s))"

definition get_angles :: "(real \<times> real) action" where
  "get_angles s =
    (if 1 < length (last_angles s) then Inr ((last_angles s ! 0, last_angles s ! 1), s)
     else Inl (IndexError, s))"

definition set_angles :: "real \<Rightarrow> real \<Rightarrow> unit action" where
  "set_angles a0 a1 = do_then (set_angle 0 a0) (\<lambda>_. set_angle 1 a1)"

subsubsection \<open>Pen\<close>

definition pen_down :: "unit action" where
  "pen_down s = do_then (set_angle (pin s) (angle_down s)) (\<lambda>_. sleep (transition_time s)) s"

definition pen_up :: "unit action" where
  "pen_up s = do_then (set_angle (pin s) (angle_up s)) (\<lambda>_. sleep (transition_time s)) s"

subsubsection \<open>Pen-moving methods\<close>

text \<open>
  \<open>no_of_steps = int(length * interpolate) or 1\<close> is never zero, so the two divisions by
  it in \<open>xy\<close> cannot raise. \<open>range(no_of_steps)\<close> is empty when it is negative.
\<close>

definition no_of_steps :: "real \<Rightarrow> real \<Rightarrow> int" where
  "no_of_steps len interpolate = py_or (py_int (len * interpolate)) 1"

definition xy_step :: "real \<Rightarrow> real \<Rightarrow> real \<Rightarrow> real \<Rightarrow> int \<Rightarrow> nat \<Rightarrow> unit action" where
  "xy_step length_of_step_x length_of_step_y len wait' n step =
    do_then (\<lambda>s. Inr ((), s\<lparr>current_x := current_x s + length_of_step_x\<rparr>)) (\<lambda>_.
    do_then (\<lambda>s. Inr ((), s\<lparr>current_y := current_y s + length_of_step_y\<rparr>)) (\<lambda>_.
    do_then (\<lambda>s. lift (xy_to_angles (INNER_ARM s) (OUTER_ARM s) (current_x s) (current_y s)) s)
      (\<lambda>(angle_1, angle_2).
    do_then (set_angles angle_1 angle_2) (\<lambda>_.
      if int step + 1 < n then sleep (len * wait' / real_of_int n)
      else (\<lambda>s. Inr ((), s))))))"

definition xy :: "real \<Rightarrow> real \<Rightarrow> real \<Rightarrow> real \<Rightarrow> bool \<Rightarrow> unit action" where
  "xy x y wait_arg interpolate draw s =
    (let wait' = py_or wait_arg (wait s) in
      do_then (if draw then pen_down else pen_up) (\<lambda>_.
      do_then (\<lambda>s. lift (xy_to_angles (INNER_ARM s) (OUTER_ARM s) x y) s) (\<lambda>(angle_1, angle_2).
      do_then get_angles (\<lambda>cached.
        if (angle_1, angle_2) = cached
        then (\<lambda>s. Inr ((), s\<lparr>current_x := x, current_y := y\<rparr>))
        else (\<lambda>s.
          let x_length = x - current_x s; y_length = y - current_y s;
              len = sqrt (x_length\<^sup>2 + y_length\<^sup>2);
              n = no_of_steps len interpolate;
              length_of_step_x = x_length / real_of_int n;
              length_of_step_y = y_length / real_of_int n
          in do_then (for_each [0..<nat n] (xy_step length_of_step_x length_of_step_y len wait' n))
               (\<lambda>_. sleep (len * wait' / 10)) s)))) s)"

definition draw :: "real \<Rightarrow> real \<Rightarrow> real \<Rightarrow> real \<Rightarrow> unit action" where
  "draw x y wait_arg interpolate s =
    (let wait' = py_or wait_arg (wait s) in xy x y wait' interpolate True s)"

definition park :: "unit action" where
  "park = do_then pen_up (\<lambda>_.
          do_then (\<lambda>s. xy (- INNER_ARM s) (OUTER_ARM s) 0 10 False s) (\<lambda>_. sleep 1))"

subsubsection \<open>Drawing methods\<close>

text \<open>
  \<open>round(v, 1)\<close>: to one decimal, a tie going to the even neighbour.
\<close>

definition round_half_even :: "real \<Rightarrow> int" where
  "round_half_even v =
    (let f = \<lfloor>v\<rfloor>; d = v - of_int f
     in if d < 1 / 2 then f else if 1 / 2 < d then f + 1 else if even f then f else f + 1)"

definition py_round1 :: "real \<Rightarrow> real" where
  "py_round1 v = of_int (round_half_even (v * 10)) / 10"

text \<open>\<open>bounds = bounds or self.bounds\<close>: \<open>None\<close> is no bounds.\<close>

definition bounds_or :: "box option \<Rightarrow> box option \<Rightarrow> box option" where
  "bounds_or a b = (case a of None \<Rightarrow> b | Some v \<Rightarrow> Some v)"

text \<open>The body of the loop over the lines in \<open>plot_lines\<close>.\<close>

definition plot_line :: "real \<Rightarrow> real \<Rightarrow> line \<Rightarrow> unit action" where
  "plot_line wait' interpolate line =
    (case line of
       [] \<Rightarrow> (\<lambda>s. Inl (IndexError, s))
     | (x, y) # segments \<Rightarrow>
         do_then (\<lambda>s. if (py_round1 (current_x s), py_round1 (current_y s)) \<noteq> (py_round1 x, py_round1 y)
                       then xy x y wait' interpolate False s
                       else Inr ((), s)) (\<lambda>_.
           for_each segments (\<lambda>(x, y). draw x y wait' interpolate)))"

text \<open>
  A method that returns nothing returns \<open>None\<close>; the refusals return their message.
\<close>

definition plot_lines ::
  "line list \<Rightarrow> real \<Rightarrow> real \<Rightarrow> bool \<Rightarrow> bool \<Rightarrow> box option \<Rightarrow> string option action" where
  "plot_lines lines wait_arg interpolate rotate' flip bounds_arg s =
    (let wait' = py_or wait_arg (wait s);
         bounds' = bounds_or bounds_arg (bounds s)
     in case bounds' of
          None \<Rightarrow> Inr (Some ''Line plotting is only possible when BrachioGraph.bounds is set.'', s)
        | Some bnds \<Rightarrow>
            do_then (lift (rotate_and_scale_lines lines False True bnds)) (\<lambda>lines.
            do_then (for_each lines (plot_line wait' interpolate)) (\<lambda>_.
            do_then park (\<lambda>_ s. Inr (None, s)))) s)"

text \<open>
  \<open>plot_file\<close> reads its lines from a file: \<open>files filename\<close> is what \<open>open\<close> and
  \<open>json.load\<close> give for that name.
\<close>

definition plot_file ::
  "(string \<Rightarrow> error + line list) \<Rightarrow> string \<Rightarrow> real \<Rightarrow> real \<Rightarrow> box option \<Rightarrow> string option action" where
  "plot_file files filename wait_arg interpolate bounds_arg s =
    (let wait' = py_or wait_arg (wait s);
         bounds' = bounds_or bounds_arg (bounds s)
     in case bounds' of
          None \<Rightarrow> Inr (Some ''File plotting is only possible when BrachioGraph.bounds is set.'', s)
        | Some bnds \<Rightarrow>
            do_then (lift (files filename)) (\<lambda>lines.
            do_then (plot_lines lines wait' interpolate False True (Some bnds)) (\<lambda>_ s. Inr (None, s))) s)"

text \<open>
  \<open>range(bounds[1], bounds[3], 2)\<close> takes integers only. Numbers are reals here, so an
  integer is a real in \<open>\<int>\<close>.
\<close>

definition py_range2 :: "real \<Rightarrow> real \<Rightarrow> error + real list" where
  "py_range2 lo hi =
    (if lo \<in> \<int> \<and> hi \<in> \<int> then Inr (map (\<lambda>k. lo + 2 * real k) [0..<nat \<lceil>(hi - lo) / 2\<rceil>])
     else Inl TypeError)"

definition test_pattern :: "box option \<Rightarrow> real \<Rightarrow> real \<Rightarrow> int \<Rightarrow> string option action" where
  "test_pattern bounds_arg wait_arg interpolate repeat s =
    (let wait' = py_or wait_arg (wait s);
         bounds' = bounds_or bounds_arg (bounds s)
     in case bounds' of
          None \<Rightarrow> Inr (Some ''Plotting a test pattern is only possible when BrachioGraph.bounds is set.'', s)
        | Some (b0, b1, b2, b3) \<Rightarrow>
            do_then (for_each [0..<nat repeat] (\<lambda>r.
              do_then (lift (py_range2 b1 b3)) (\<lambda>ys.
                for_each ys (\<lambda>y.
                  do_then (xy b0 y wait' interpolate False) (\<lambda>_.
                  do_then (draw b2 y wait' interpolate) (\<lambda>_.
                  do_then (xy b2 (y + 1) wait' interpolate False) (\<lambda>_.
                  draw b0 (y + 1) wait' interpolate))))))) (\<lambda>_.
            do_then park (\<lambda>_ s. Inr (None, s))) s)"

definition box :: "box option \<Rightarrow> real \<Rightarrow> real \<Rightarrow> int \<Rightarrow> bool \<Rightarrow> string option action" where
  "box bounds_arg wait_arg interpolate repeat reverse s =
    (let wait' = py_or wait_arg (wait s);
         bounds' = bounds_or bounds_arg (bounds s)
     in case bounds' of
          None \<Rightarrow> Inr (Some ''Box drawing is only possible when BrachioGraph.bounds is set.'', s)
        | Some (b0, b1, b2, b3) \<Rightarrow>
            do_then (xy b0 b1 wait' interpolate False) (\<lambda>_.
            do_then (for_each [0..<nat repeat] (\<lambda>r.
              if \<not> reverse then
                do_then (draw b2 b1 wait' interpolate) (\<lambda>_.
                do_then (draw b2 b3 wait' interpolate) (\<lambda>_.
                do_then (draw b0 b3 wait' interpolate) (\<lambda>_.
                draw b0 b1 wait' interpolate)))
              else
                do_then (draw b0 b3 wait' interpolate) (\<lambda>_.
                do_then (draw b2 b3 wait' interpolate) (\<lambda>_.
                do_then (draw b2 b1 wait' interpolate) (\<lambda>_.
                draw b0 b1 wait' interpolate))))) (\<lambda>_.
            do_then park (\<lambda>_ s. Inr (None, s)))) s)"

subsubsection \<open>Construction\<close>

text \<open>
  \<open>BrachioGraph.__init__\<close>, with \<open>Bonnet.__init__\<close> and \<open>Pen.__init__\<close> inside it. The
  argument \<open>wait=None\<close> is the number 0 here: both select the default 0.1.
\<close>

definition init :: "real \<Rightarrow> real \<Rightarrow> real \<Rightarrow> box option \<Rightarrow> real \<Rightarrow> real \<Rightarrow> (error \<times> plotter) + (unit \<times> plotter)" where
  "init inner_arm outer_arm wait_arg bounds_arg angle_up_arg angle_down_arg =
    (do_then (set_angle 0 (-90)) (\<lambda>_.
     do_then (sleep 0.3) (\<lambda>_.
     do_then (set_angle 1 90) (\<lambda>_.
     do_then (sleep 0.3) (\<lambda>_.
     do_then (\<lambda>s. Inr ((), s\<lparr>wait := py_or wait_arg 0.1\<rparr>)) (\<lambda>_.
     do_then (\<lambda>s. Inr ((), s\<lparr>pin := 2, angle_up := angle_up_arg, angle_down := angle_down_arg,
                               transition_time := 0.25\<rparr>)) (\<lambda>_.
     do_then pen_up (\<lambda>_.
     do_then (sleep 0.3) (\<lambda>_.
     do_then pen_down (\<lambda>_.
     do_then (sleep 0.3) (\<lambda>_.
     do_then pen_up (\<lambda>_.
     do_then (sleep 0.3) (\<lambda>_.
     (\<lambda>s. Inr ((), s\<lparr>current_x := - INNER_ARM s, current_y := OUTER_ARM s\<rparr>)))))))))))))))
      \<lparr>INNER_ARM = inner_arm, OUTER_ARM = outer_arm, bounds = bounds_arg, wait = 0,
       current_x = 0, current_y = 0, last_angles = [0, 0, 0], pin = 0, angle_up = 0,
       angle_down = 0, transition_time = 0, events = []\<rparr>"

subsection \<open>Vocabulary of the statements\<close>

text \<open>
  The set of all x values and of all y values of the plot data, the ranges they span, the
  rotation that \<open>analyse_lines\<close> decides, and a point lying in the rectangle
  \<open>(min_x, min_y, max_x, max_y)\<close>.
\<close>

definition x_values :: "line list \<Rightarrow> real set" where
  "x_values lines = fst ` (\<Union>line\<in>set lines. set line)"

definition y_values :: "line list \<Rightarrow> real set" where
  "y_values lines = snd ` (\<Union>line\<in>set lines. set line)"

definition x_range :: "line list \<Rightarrow> real" where
  "x_range lines = Max (x_values lines) - Min (x_values lines)"

definition y_range :: "line list \<Rightarrow> real" where
  "y_range lines = Max (y_values lines) - Min (y_values lines)"

definition rotated :: "line list \<Rightarrow> box \<Rightarrow> bool" where
  "rotated lines bnds = (case analyse_lines lines False bnds of Inr (rot, _) \<Rightarrow> rot | Inl _ \<Rightarrow> False)"

definition in_box :: "box \<Rightarrow> point \<Rightarrow> bool" where
  "in_box bnds p =
    (case bnds of (b0, b1, b2, b3) \<Rightarrow> b0 \<le> fst p \<and> fst p \<le> b2 \<and> b1 \<le> snd p \<and> snd p \<le> b3)"


text \<open>
  The plotter that \<open>bg.py\<close> constructs (arms 8 and 8, bounds \<open>(-8, 4, 8, 13)\<close>, pen up at
  10 and down at 0), and the same plotter after \<open>bg.set_angles(-120, 0)\<close>, the call that
  \<open>bg.py\<close> keeps in a comment.
\<close>

definition bg_py :: plotter where
  "bg_py = \<lparr>INNER_ARM = 8, OUTER_ARM = 8, bounds = Some (-8, 4, 8, 13), wait = 0.1,
     current_x = -8, current_y = 8, last_angles = [30, 90, 10], pin = 2, angle_up = 10,
     angle_down = 0, transition_time = 0.25,
     events = [Servo 0 30, Sleep 0.3, Servo 1 90, Sleep 0.3,
               Servo 2 10, Sleep 0.25, Sleep 0.3, Servo 2 0, Sleep 0.25, Sleep 0.3,
               Servo 2 10, Sleep 0.25, Sleep 0.3]\<rparr>"

definition jogged :: plotter where
  "jogged = bg_py\<lparr>events := events bg_py @ [Servo 0 0, Servo 1 0], last_angles := [0, 0, 10]\<rparr>"

section \<open>The kinematics solver\<close>

subsection \<open>Domains of the two law-of-cosines quotients\<close>

lemma and_then_Inr [simp]: "and_then (Inr a) f = f a"
  by (simp add: and_then_def)

lemma and_then_Inl [simp]: "and_then (Inl e) f = Inl e"
  by (simp add: and_then_def)

lemma sq_le_iff_abs:
  fixes a b :: real
  assumes "0 \<le> b"
  shows "a\<^sup>2 \<le> b\<^sup>2 \<longleftrightarrow> \<bar>a\<bar> \<le> b"
  using assms abs_le_square_iff[of a b] by simp

lemma cos_arg1_le:
  fixes I O' h :: real
  assumes "0 < I" "0 < O'" "0 < h"
  shows "(h\<^sup>2 + I\<^sup>2 - O'\<^sup>2) / (2 * h * I) \<le> 1 \<longleftrightarrow> \<bar>h - I\<bar> \<le> O'"
proof -
  have "(h\<^sup>2 + I\<^sup>2 - O'\<^sup>2) / (2 * h * I) \<le> 1 \<longleftrightarrow> h\<^sup>2 + I\<^sup>2 - O'\<^sup>2 \<le> 2 * h * I"
    using assms by (simp add: divide_le_eq)
  also have "\<dots> \<longleftrightarrow> (h - I)\<^sup>2 \<le> O'\<^sup>2" by (simp add: power2_diff algebra_simps)
  also have "\<dots> \<longleftrightarrow> \<bar>h - I\<bar> \<le> O'" using assms by (simp add: sq_le_iff_abs)
  finally show ?thesis .
qed

lemma cos_arg1_ge:
  fixes I O' h :: real
  assumes "0 < I" "0 < O'" "0 < h"
  shows "-1 \<le> (h\<^sup>2 + I\<^sup>2 - O'\<^sup>2) / (2 * h * I) \<longleftrightarrow> O' \<le> h + I"
proof -
  have "-1 \<le> (h\<^sup>2 + I\<^sup>2 - O'\<^sup>2) / (2 * h * I) \<longleftrightarrow> - (2 * h * I) \<le> h\<^sup>2 + I\<^sup>2 - O'\<^sup>2"
    using assms by (simp add: le_divide_eq)
  also have "\<dots> \<longleftrightarrow> O'\<^sup>2 \<le> (h + I)\<^sup>2" by (simp add: power2_sum algebra_simps)
  also have "\<dots> \<longleftrightarrow> O' \<le> h + I" using assms by (simp add: sq_le_iff_abs)
  finally show ?thesis .
qed

lemma cos_arg2_le:
  fixes I O' h :: real
  assumes "0 < I" "0 < O'" "0 < h"
  shows "(I\<^sup>2 + O'\<^sup>2 - h\<^sup>2) / (2 * I * O') \<le> 1 \<longleftrightarrow> \<bar>I - O'\<bar> \<le> h"
proof -
  have "(I\<^sup>2 + O'\<^sup>2 - h\<^sup>2) / (2 * I * O') \<le> 1 \<longleftrightarrow> I\<^sup>2 + O'\<^sup>2 - h\<^sup>2 \<le> 2 * I * O'"
    using assms by (simp add: divide_le_eq)
  also have "\<dots> \<longleftrightarrow> (I - O')\<^sup>2 \<le> h\<^sup>2" by (simp add: power2_diff algebra_simps)
  also have "\<dots> \<longleftrightarrow> \<bar>I - O'\<bar> \<le> h" using assms by (simp add: sq_le_iff_abs)
  finally show ?thesis .
qed

lemma cos_arg2_ge:
  fixes I O' h :: real
  assumes "0 < I" "0 < O'" "0 < h"
  shows "-1 \<le> (I\<^sup>2 + O'\<^sup>2 - h\<^sup>2) / (2 * I * O') \<longleftrightarrow> h \<le> I + O'"
proof -
  have "-1 \<le> (I\<^sup>2 + O'\<^sup>2 - h\<^sup>2) / (2 * I * O') \<longleftrightarrow> - (2 * I * O') \<le> I\<^sup>2 + O'\<^sup>2 - h\<^sup>2"
    using assms by (simp add: le_divide_eq)
  also have "\<dots> \<longleftrightarrow> h\<^sup>2 \<le> (I + O')\<^sup>2" by (simp add: power2_sum algebra_simps)
  also have "\<dots> \<longleftrightarrow> h \<le> I + O'" using assms by (simp add: sq_le_iff_abs)
  finally show ?thesis .
qed

lemma abs_le_hyp:
  fixes x y :: real
  shows "\<bar>x\<bar> \<le> sqrt (x\<^sup>2 + y\<^sup>2)"
proof -
  have "sqrt (x\<^sup>2) \<le> sqrt (x\<^sup>2 + y\<^sup>2)" by (simp only: real_sqrt_le_iff) simp
  then show ?thesis by simp
qed

lemma quot_bounds:
  fixes x y :: real
  assumes "0 < sqrt (x\<^sup>2 + y\<^sup>2)"
  shows "-1 \<le> x / sqrt (x\<^sup>2 + y\<^sup>2)" "x / sqrt (x\<^sup>2 + y\<^sup>2) \<le> 1"
proof -
  have "\<bar>x\<bar> \<le> sqrt (x\<^sup>2 + y\<^sup>2)" by (rule abs_le_hyp)
  then have "- sqrt (x\<^sup>2 + y\<^sup>2) \<le> x" "x \<le> sqrt (x\<^sup>2 + y\<^sup>2)" by linarith+
  then show "-1 \<le> x / sqrt (x\<^sup>2 + y\<^sup>2)" "x / sqrt (x\<^sup>2 + y\<^sup>2) \<le> 1"
    using assms by (simp_all add: le_divide_eq divide_le_eq)
qed

lemma xy_to_angles_unfold:
  assumes "0 < I" "0 < O'" "0 < sqrt (x\<^sup>2 + y\<^sup>2)"
  shows "xy_to_angles I O' x y =
     (let h = sqrt (x\<^sup>2 + y\<^sup>2) in
      if h > I + O' then Inl CannotReach
      else if h < \<bar>I - O'\<bar> then Inl ValueError
      else Inr (math_degrees (arcsin (x / h) - arccos ((h\<^sup>2 + I\<^sup>2 - O'\<^sup>2) / (2 * h * I))),
                math_degrees (pi - arccos ((I\<^sup>2 + O'\<^sup>2 - h\<^sup>2) / (2 * I * O')))))"
proof -
  define h where "h = sqrt (x\<^sup>2 + y\<^sup>2)"
  have h: "0 < h" using assms h_def by simp
  have nn: "\<not> x\<^sup>2 + y\<^sup>2 < 0" by (simp add: not_less)
  have q: "-1 \<le> x / h" "x / h \<le> 1" using quot_bounds[OF assms(3)] h_def by simp_all
  note a1 = cos_arg1_le[OF assms(1,2) h] cos_arg1_ge[OF assms(1,2) h]
  note a2 = cos_arg2_le[OF assms(1,2) h] cos_arg2_ge[OF assms(1,2) h]
  show ?thesis
  proof (cases "h > I + O'")
    case True
    then show ?thesis using nn by (simp add: xy_to_angles_def math_sqrt_def h_def[symmetric] Let_def)
  next
    case False
    note le = this
    show ?thesis
    proof (cases "h < \<bar>I - O'\<bar>")
      case True
      then have "\<not> (\<bar>h - I\<bar> \<le> O' \<and> O' \<le> h + I)" by linarith
      then have "(h\<^sup>2 + I\<^sup>2 - O'\<^sup>2) / (2 * h * I) < -1 \<or> 1 < (h\<^sup>2 + I\<^sup>2 - O'\<^sup>2) / (2 * h * I)"
        using a1 by linarith
      then show ?thesis using nn le True h assms(1,2) q
        by (simp add: xy_to_angles_def math_sqrt_def h_def[symmetric] Let_def py_div_def math_asin_def math_acos_def not_less)
    next
      case False
      then have "\<bar>h - I\<bar> \<le> O'" "O' \<le> h + I" "\<bar>I - O'\<bar> \<le> h" "h \<le> I + O'" using le by linarith+
      then have "\<not> ((h\<^sup>2 + I\<^sup>2 - O'\<^sup>2) / (2 * h * I) < -1 \<or> 1 < (h\<^sup>2 + I\<^sup>2 - O'\<^sup>2) / (2 * h * I))"
         "\<not> ((I\<^sup>2 + O'\<^sup>2 - h\<^sup>2) / (2 * I * O') < -1 \<or> 1 < (I\<^sup>2 + O'\<^sup>2 - h\<^sup>2) / (2 * I * O'))"
        using a1 a2 by linarith+
      then show ?thesis using nn le False h assms(1,2) q
        by (simp add: xy_to_angles_def math_sqrt_def h_def[symmetric] Let_def py_div_def math_asin_def math_acos_def not_less)
    qed
  qed
qed

lemma degrees_radians [simp]: "math_degrees (math_radians d) = d"
  by (simp add: math_degrees_def math_radians_def)



lemma sqrt_256: "sqrt 256 = 16"
proof -
  show ?thesis using real_sqrt_abs[of 16] by simp
qed


subsection \<open>The poses the solver commands\<close>

text \<open>
  \<open>xy_to_angles\<close> reads \<open>y\<close> only through its square, so a target and its mirror image
  below the base get the same angles; the angles it returns lie in \<open>[-270, 90]\<close> and
  \<open>[0, 180]\<close> degrees; and when the target is on the side \<open>y \<ge> 0\<close>, \<open>angles_to_xy\<close> leads
  from these angles to the target again.
\<close>

lemma xy_to_angles_range:
  assumes I: "0 < I" and O: "0 < O'" and ang: "xy_to_angles I O' x y = Inr (s, e)"
  shows "-270 \<le> s \<and> s \<le> 90 \<and> 0 \<le> e \<and> e \<le> 180"
proof -
  define h where "h = sqrt (x\<^sup>2 + y\<^sup>2)"
  have h0: "0 \<le> h" by (simp add: h_def)
  have hpos: "0 < h"
  proof (rule ccontr)
    assume "\<not> 0 < h"
    then have "h = 0" using h0 by linarith
    then have "xy_to_angles I O' x y = Inl ZeroDivisionError"
      using I O by (simp add: xy_to_angles_def math_sqrt_def h_def[symmetric] py_div_def not_less)
    then show False using ang by simp
  qed
  define a where "a = arcsin (x / h)"
  define b where "b = arccos ((h\<^sup>2 + I\<^sup>2 - O'\<^sup>2) / (2 * h * I))"
  define c where "c = arccos ((I\<^sup>2 + O'\<^sup>2 - h\<^sup>2) / (2 * I * O'))"
  from ang have res: "\<not> I + O' < h" "\<not> h < \<bar>I - O'\<bar>"
    "s = math_degrees (a - b)" "e = math_degrees (pi - c)"
    unfolding xy_to_angles_unfold[OF I O hpos[unfolded h_def]] Let_def h_def[symmetric] a_def b_def c_def
    by (auto split: if_splits)
  have q: "-1 \<le> x / h" "x / h \<le> 1" using quot_bounds[OF hpos[unfolded h_def]] by (simp_all add: h_def)
  have arng: "- (pi / 2) \<le> a" "a \<le> pi / 2"
    unfolding a_def using arcsin_lbound[OF q] arcsin_ubound[OF q] by linarith+
  have "\<bar>h - I\<bar> \<le> O'" "O' \<le> h + I" "\<bar>I - O'\<bar> \<le> h" "h \<le> I + O'" using res(1,2) by linarith+
  then have d: "-1 \<le> (h\<^sup>2 + I\<^sup>2 - O'\<^sup>2) / (2 * h * I)" "(h\<^sup>2 + I\<^sup>2 - O'\<^sup>2) / (2 * h * I) \<le> 1"
    "-1 \<le> (I\<^sup>2 + O'\<^sup>2 - h\<^sup>2) / (2 * I * O')" "(I\<^sup>2 + O'\<^sup>2 - h\<^sup>2) / (2 * I * O') \<le> 1"
    using cos_arg1_le[OF I O hpos] cos_arg1_ge[OF I O hpos] cos_arg2_le[OF I O hpos] cos_arg2_ge[OF I O hpos]
    by simp_all
  have brng: "0 \<le> b" "b \<le> pi"
    unfolding b_def using arccos_lbound[OF d(1,2)] arccos_ubound[OF d(1,2)] by linarith+
  have crng: "0 \<le> c" "c \<le> pi"
    unfolding c_def using arccos_lbound[OF d(3,4)] arccos_ubound[OF d(3,4)] by linarith+
  have deg: "math_degrees t \<le> math_degrees u" if "t \<le> u" for t u
    using that pi_gt_zero by (simp add: math_degrees_def divide_le_cancel)
  have v: "math_degrees (- (3 * pi / 2)) = -270" "math_degrees (pi / 2) = 90"
    "math_degrees 0 = 0" "math_degrees pi = 180"
    by (simp_all add: math_degrees_def)
  have "math_degrees (- (3 * pi / 2)) \<le> s" unfolding res(3) using arng brng by (intro deg) linarith
  moreover have "s \<le> math_degrees (pi / 2)" unfolding res(3) using arng brng by (intro deg) linarith
  moreover have "math_degrees 0 \<le> e" unfolding res(4) using crng by (intro deg) linarith
  moreover have "e \<le> math_degrees pi" unfolding res(4) using crng by (intro deg) linarith
  ultimately show ?thesis unfolding v by simp
qed

lemma xy_to_angles_mirror: "xy_to_angles I O' x (- y) = xy_to_angles I O' x y"
  by (simp add: xy_to_angles_def)

lemma radians_degrees [simp]: "math_radians (math_degrees r) = r"
  by (simp add: math_degrees_def math_radians_def)

lemma angles_to_xy_of_target:
  assumes I: "0 < I" and O: "0 < O'" and ang: "xy_to_angles I O' x y = Inr (s, e)" and y: "0 \<le> y"
  shows "angles_to_xy I O' s e = Inr (x, y)"
proof -
  define h where "h = sqrt (x\<^sup>2 + y\<^sup>2)"
  have h0: "0 \<le> h" by (simp add: h_def)
  have hpos: "0 < h"
  proof (rule ccontr)
    assume "\<not> 0 < h"
    then have "h = 0" using h0 by linarith
    then have "xy_to_angles I O' x y = Inl ZeroDivisionError"
      using I O by (simp add: xy_to_angles_def math_sqrt_def h_def[symmetric] py_div_def not_less)
    then show False using ang by simp
  qed
  define c1 where "c1 = (h\<^sup>2 + I\<^sup>2 - O'\<^sup>2) / (2 * h * I)"
  define c2 where "c2 = (I\<^sup>2 + O'\<^sup>2 - h\<^sup>2) / (2 * I * O')"
  from ang have res: "\<not> I + O' < h" "\<not> h < \<bar>I - O'\<bar>"
    "s = math_degrees (arcsin (x / h) - arccos c1)" "e = math_degrees (pi - arccos c2)"
    unfolding xy_to_angles_unfold[OF I O hpos[unfolded h_def]] Let_def h_def[symmetric] c1_def c2_def
    by (auto split: if_splits)
  have q: "-1 \<le> x / h" "x / h \<le> 1" using quot_bounds[OF hpos[unfolded h_def]] by (simp_all add: h_def)
  have "\<bar>h - I\<bar> \<le> O'" "O' \<le> h + I" "\<bar>I - O'\<bar> \<le> h" "h \<le> I + O'" using res(1,2) by linarith+
  then have d: "-1 \<le> c1" "c1 \<le> 1" "-1 \<le> c2" "c2 \<le> 1"
    unfolding c1_def c2_def
    using cos_arg1_le[OF I O hpos] cos_arg1_ge[OF I O hpos] cos_arg2_le[OF I O hpos] cos_arg2_ge[OF I O hpos]
    by simp_all
  have cosel: "cos (pi - math_radians e) = c2" unfolding res(4) using d by (simp add: cos_arccos)
  have h2: "I\<^sup>2 + O'\<^sup>2 - 2 * I * O' * c2 = h\<^sup>2" unfolding c2_def using I O by (simp add: field_simps)
  have s1: "math_sqrt (I\<^sup>2 + O'\<^sup>2 - 2 * I * O' * cos (pi - math_radians e)) = Inr h"
    unfolding cosel h2 using hpos by (simp add: math_sqrt_def)
  have s2: "py_div (h\<^sup>2 + I\<^sup>2 - O'\<^sup>2) (2 * h * I) = Inr c1"
    using hpos I by (simp add: py_div_def c1_def)
  have s3: "math_acos c1 = Inr (arccos c1)" using d by (simp add: math_acos_def)
  have inner: "arccos c1 + math_radians s = arcsin (x / h)" unfolding res(3) by simp
  have sx: "sin (arcsin (x / h)) * h = x" using q hpos by simp
  have "cos (arcsin (x / h)) = sqrt (1 - (x / h)\<^sup>2)" using q by (rule cos_arcsin)
  also have "1 - (x / h)\<^sup>2 = y\<^sup>2 / h\<^sup>2"
  proof -
    have "y\<^sup>2 = h\<^sup>2 - x\<^sup>2" by (simp add: h_def)
    moreover have "h\<^sup>2 \<noteq> 0" using hpos by simp
    ultimately show ?thesis by (simp add: power_divide diff_divide_distrib)
  qed
  also have "sqrt (y\<^sup>2 / h\<^sup>2) = y / h" using y hpos by (simp add: real_sqrt_divide)
  finally have cy: "cos (arcsin (x / h)) * h = y" using hpos by simp
  show ?thesis
    unfolding angles_to_xy_def Let_def
    by (simp only: s1 s2 s3 and_then_Inr inner sx cy)
qed

subsection \<open>Round trip\<close>



subsection \<open>Reach\<close>




section \<open>The path normalizer\<close>

subsection \<open>What \<open>analyse_lines\<close> computes\<close>

lemma collect_values_eq:
  "collect_values lines (X, Y) =
     (if [] \<in> set lines then Inl ValueError else Inr (X \<union> x_values lines, Y \<union> y_values lines))"
proof (induction lines arbitrary: X Y)
  case Nil
  then show ?case by (simp add: x_values_def y_values_def)
next
  case (Cons line rest)
  show ?case
  proof (cases "line = []")
    case True
    then show ?thesis by simp
  next
    case False
    have "x_values (line # rest) = set (map fst line) \<union> x_values rest"
         "y_values (line # rest) = set (map snd line) \<union> y_values rest"
      by (auto simp: x_values_def y_values_def)
    then show ?thesis using False Cons.IH by (auto simp: Un_assoc)
  qed
qed

lemma values_finite: "finite (x_values lines)" "finite (y_values lines)"
  by (simp_all add: x_values_def y_values_def)

lemma values_nonempty:
  assumes "lines \<noteq> []" "[] \<notin> set lines"
  shows "x_values lines \<noteq> {}" "y_values lines \<noteq> {}"
proof -
  obtain line where l: "line \<in> set lines" using assms(1) by (cases lines) auto
  then have "line \<noteq> []" using assms(2) by auto
  then obtain p where "p \<in> set line" by (cases line) auto
  then have "fst p \<in> x_values lines" "snd p \<in> y_values lines"
    using l by (auto simp: x_values_def y_values_def)
  then show "x_values lines \<noteq> {}" "y_values lines \<noteq> {}" by auto
qed

lemma analyse_lines_unfold:
  assumes "lines \<noteq> []" "[] \<notin> set lines" "b2 - b0 \<noteq> 0" "b3 - b1 \<noteq> 0"
  shows "analyse_lines lines r (b0, b1, b2, b3) =
    (let x_range = Max (x_values lines) - Min (x_values lines);
         y_range = Max (y_values lines) - Min (y_values lines);
         box_x_range = b2 - b0; box_y_range = b3 - b1;
         x_mid_point = (Max (x_values lines) + Min (x_values lines)) / 2;
         y_mid_point = (Max (y_values lines) + Min (y_values lines)) / 2
     in if (x_range \<ge> y_range \<and> box_x_range \<ge> box_y_range) \<or>
           (x_range \<le> y_range \<and> box_x_range \<le> box_y_range)
        then Inr (False, x_mid_point, y_mid_point, (b0 + b2) / 2, (b1 + b3) / 2,
                  max (x_range / box_x_range) (y_range / box_y_range))
        else Inr (True, y_mid_point, x_mid_point, (b0 + b2) / 2, (b1 + b3) / 2,
                  max (x_range / box_y_range) (y_range / box_x_range)))"
  using assms values_nonempty[OF assms(1,2)]
  by (simp add: analyse_lines_def collect_values_eq py_min_def py_max_def py_div_def Let_def)

lemma for_all_total:
  assumes "\<And>a. a \<in> set xs \<Longrightarrow> \<exists>b. f a = Inr b \<and> P b"
  shows "\<exists>bs. for_all f xs = Inr bs \<and> (\<forall>b\<in>set bs. P b)"
  using assms
proof (induction xs)
  case Nil
  then show ?case by simp
next
  case (Cons a as)
  obtain b where b: "f a = Inr b" "P b" using Cons.prems by fastforce
  obtain bs where bs: "for_all f as = Inr bs" "\<forall>b\<in>set bs. P b" using Cons by fastforce
  show ?case using b bs by simp
qed

lemma scaled_within:
  fixes v mid range divider box_range :: real
  assumes v: "\<bar>v - mid\<bar> \<le> range / 2" and d: "range / box_range \<le> divider"
    and pos: "0 < divider" "0 < box_range"
  shows "\<bar>(v - mid) / divider\<bar> \<le> box_range / 2"
proof -
  have "range \<le> divider * box_range" using d pos(2) by (simp add: divide_le_eq)
  then have "\<bar>v - mid\<bar> \<le> divider * box_range / 2" using v by linarith
  then have "\<bar>v - mid\<bar> / divider \<le> box_range / 2" using pos(1) by (simp add: divide_le_eq mult.commute)
  then show ?thesis using pos(1) by simp
qed

lemma within_range:
  fixes A :: "real set"
  assumes "finite A" "v \<in> A"
  shows "\<bar>v - (Max A + Min A) / 2\<bar> \<le> (Max A - Min A) / 2"
proof -
  have "Min A \<le> v" "v \<le> Max A" using assms by simp_all
  then show ?thesis by (simp add: abs_le_iff field_simps)
qed

lemma scale_point_in_box:
  assumes d: "0 < d"
    and p0: "\<bar>(if rot then snd p else fst p) - xm\<bar> \<le> xr / 2" "xr / (b2 - b0) \<le> d"
    and p1: "\<bar>(if rot then fst p else snd p) - ym\<bar> \<le> yr / 2" "yr / (b3 - b1) \<le> d"
    and bx: "b0 < b2" "b1 < b3"
    and mirror: "flip = rot \<or> b0 + b2 = 0"
  shows "\<exists>q. scale_point rot flip xm ym ((b0 + b2) / 2) ((b1 + b3) / 2) d p = Inr q \<and>
             in_box (b0, b1, b2, b3) q"
proof -
  define u where "u = ((if rot then snd p else fst p) - xm) / d"
  define w where "w = ((if rot then fst p else snd p) - ym) / d"
  have u: "\<bar>u\<bar> \<le> (b2 - b0) / 2" unfolding u_def using p0 d bx by (intro scaled_within[where range = xr]) simp_all
  have w: "\<bar>w\<bar> \<le> (b3 - b1) / 2" unfolding w_def using p1 d bx by (intro scaled_within[where range = yr]) simp_all
  have eq: "scale_point rot flip xm ym ((b0 + b2) / 2) ((b1 + b3) / 2) d p =
        Inr (if flip \<noteq> rot then - (u + (b0 + b2) / 2) else u + (b0 + b2) / 2, w + (b1 + b3) / 2)"
    using d by (simp add: scale_point_def py_div_def Let_def u_def w_def)
  have "b0 \<le> u + (b0 + b2) / 2" "u + (b0 + b2) / 2 \<le> b2" using u by (simp_all add: abs_le_iff field_simps)
  moreover have "b0 \<le> - (u + (b0 + b2) / 2) \<and> - (u + (b0 + b2) / 2) \<le> b2" if "b0 + b2 = 0"
  proof -
    have "b0 = - b2" using that by linarith
    then have "\<bar>u\<bar> \<le> b2" using u by simp
    then show ?thesis using that \<open>b0 = - b2\<close> by (simp add: abs_le_iff)
  qed
  moreover have "b1 \<le> w + (b1 + b3) / 2" "w + (b1 + b3) / 2 \<le> b3" using w by (simp_all add: abs_le_iff field_simps)
  ultimately show ?thesis unfolding eq using mirror by (auto simp: in_box_def)
qed

lemma x_values_Cons: "x_values (line # rest) = fst ` set line \<union> x_values rest"
  by (auto simp: x_values_def)
lemma y_values_Cons: "y_values (line # rest) = snd ` set line \<union> y_values rest"
  by (auto simp: y_values_def)
lemma values_Nil: "x_values [] = {}" "y_values [] = {}"
  by (simp_all add: x_values_def y_values_def)

lemmas eval_values = x_values_Cons y_values_Cons values_Nil x_range_def y_range_def

subsection \<open>Rotation decision and divider\<close>

text \<open>
  Claim C4. For plot data with at least one line and no empty line, and bounds whose two
  ranges are not zero, \<open>analyse_lines\<close> returns \<open>rotate = False\<close>, the mid-points and
  \<open>divider = max (x_range / box_x_range) (y_range / box_y_range)\<close> when artwork and
  rectangle share their orientation, and otherwise \<open>rotate = True\<close>, the two artwork
  mid-points swapped and \<open>divider = max (x_range / box_y_range) (y_range / box_x_range)\<close>.
  Artwork of ranges 10 and 2 against a rectangle of ranges 2 and 10 is rotated.
\<close>

theorem analyse_lines_rotation:
  assumes "lines \<noteq> []" "[] \<notin> set lines" "b2 - b0 \<noteq> 0" "b3 - b1 \<noteq> 0"
  shows "((x_range lines \<ge> y_range lines \<and> b2 - b0 \<ge> b3 - b1) \<or>
          (x_range lines \<le> y_range lines \<and> b2 - b0 \<le> b3 - b1) \<longrightarrow>
            analyse_lines lines r (b0, b1, b2, b3) =
              Inr (False,
                   (Max (x_values lines) + Min (x_values lines)) / 2,
                   (Max (y_values lines) + Min (y_values lines)) / 2,
                   (b0 + b2) / 2, (b1 + b3) / 2,
                   max (x_range lines / (b2 - b0)) (y_range lines / (b3 - b1))))
       \<and> (\<not> ((x_range lines \<ge> y_range lines \<and> b2 - b0 \<ge> b3 - b1) \<or>
              (x_range lines \<le> y_range lines \<and> b2 - b0 \<le> b3 - b1)) \<longrightarrow>
            analyse_lines lines r (b0, b1, b2, b3) =
              Inr (True,
                   (Max (y_values lines) + Min (y_values lines)) / 2,
                   (Max (x_values lines) + Min (x_values lines)) / 2,
                   (b0 + b2) / 2, (b1 + b3) / 2,
                   max (x_range lines / (b3 - b1)) (y_range lines / (b2 - b0))))
       \<and> (x_range lines = 10 \<and> y_range lines = 2 \<and> b2 - b0 = 2 \<and> b3 - b1 = 10 \<longrightarrow>
            (\<exists>rest. analyse_lines lines r (b0, b1, b2, b3) = Inr (True, rest)))"
proof -
  let ?same = "(x_range lines \<ge> y_range lines \<and> b2 - b0 \<ge> b3 - b1) \<or>
          (x_range lines \<le> y_range lines \<and> b2 - b0 \<le> b3 - b1)"
  have A: "analyse_lines lines r (b0, b1, b2, b3) =
              Inr (False,
                   (Max (x_values lines) + Min (x_values lines)) / 2,
                   (Max (y_values lines) + Min (y_values lines)) / 2,
                   (b0 + b2) / 2, (b1 + b3) / 2,
                   max (x_range lines / (b2 - b0)) (y_range lines / (b3 - b1)))" if "?same"
    using that unfolding analyse_lines_unfold[OF assms] Let_def x_range_def y_range_def by simp
  have B: "analyse_lines lines r (b0, b1, b2, b3) =
              Inr (True,
                   (Max (y_values lines) + Min (y_values lines)) / 2,
                   (Max (x_values lines) + Min (x_values lines)) / 2,
                   (b0 + b2) / 2, (b1 + b3) / 2,
                   max (x_range lines / (b3 - b1)) (y_range lines / (b2 - b0)))" if "\<not> ?same"
    using that unfolding analyse_lines_unfold[OF assms] Let_def x_range_def y_range_def by simp
  have C: "\<exists>rest. analyse_lines lines r (b0, b1, b2, b3) = Inr (True, rest)"
    if "x_range lines = 10 \<and> y_range lines = 2 \<and> b2 - b0 = 2 \<and> b3 - b1 = 10"
  proof -
    have "\<not> ?same" using that by simp
    from B[OF this] show ?thesis by blast
  qed
  show ?thesis using A B C by blast
qed

theorem analyse_lines_rotation_witness:
  "x_range [[(0, 0), (10, 2)]] = 10 \<and> y_range [[(0, 0), (10, 2)]] = 2
   \<and> analyse_lines [[(0, 0), (10, 2)]] False (0, 0, 2, 10) = Inr (True, 1, 5, 1, 5, 1)
   \<and> analyse_lines [[(0, 0), (10, 2)]] False (0, 0, 10, 2) = Inr (False, 5, 1, 5, 1, 1)"
proof -
  have v: "x_range [[(0, 0), (10, 2)]] = 10" "y_range [[(0, 0), (10, 2)]] = 2"
    "Max (x_values [[(0, 0), (10, 2)]]) = 10" "Min (x_values [[(0, 0), (10, 2)]]) = 0"
    "Max (y_values [[(0, 0), (10, 2)]]) = 2" "Min (y_values [[(0, 0), (10, 2)]]) = 0"
    by (simp_all add: eval_values)
  show ?thesis
    using analyse_lines_rotation[of "[[(0, 0), (10, 2)]]" 2 0 10 0 False]
      analyse_lines_rotation[of "[[(0, 0), (10, 2)]]" 10 0 2 0 False]
    by (simp add: v)
qed

subsection \<open>Fit\<close>

text \<open>
  Claim C3, amended. For plot data with at least one line, no empty line and two distinct
  points at least (a range that is not zero), and a rectangle with \<open>min_x < max_x\<close> and
  \<open>min_y < max_y\<close>: when x is not negated (\<open>flip\<close> equals the rotation decided), or the
  rectangle is symmetric about \<open>x = 0\<close>, \<open>rotate_and_scale_lines\<close> returns, and every
  point of its result lies in the rectangle.
\<close>

theorem rotate_and_scale_lines_fit:
  assumes wf: "lines \<noteq> []" "[] \<notin> set lines" and bx: "b0 < b2" "b1 < b3"
    and extent: "0 < x_range lines \<or> 0 < y_range lines"
    and mirror: "flip = rotated lines (b0, b1, b2, b3) \<or> b0 + b2 = 0"
  shows "\<exists>lines'. rotate_and_scale_lines lines r flip (b0, b1, b2, b3) = Inr lines' \<and>
           (\<forall>line\<in>set lines'. \<forall>p\<in>set line. in_box (b0, b1, b2, b3) p)"
proof -
  define xr where "xr = x_range lines"
  define yr where "yr = y_range lines"
  define xm where "xm = (Max (x_values lines) + Min (x_values lines)) / 2"
  define ym where "ym = (Max (y_values lines) + Min (y_values lines)) / 2"
  define same where "same \<longleftrightarrow> (xr \<ge> yr \<and> b2 - b0 \<ge> b3 - b1) \<or> (xr \<le> yr \<and> b2 - b0 \<le> b3 - b1)"
  define d where "d = (if same then max (xr / (b2 - b0)) (yr / (b3 - b1)) else max (xr / (b3 - b1)) (yr / (b2 - b0)))"
  have nz: "b2 - b0 \<noteq> 0" "b3 - b1 \<noteq> 0" using bx by simp_all
  have an: "analyse_lines lines r' (b0, b1, b2, b3) =
      Inr (\<not> same, if same then xm else ym, if same then ym else xm, (b0 + b2) / 2, (b1 + b3) / 2, d)" for r'
    unfolding analyse_lines_unfold[OF wf nz] Let_def
    by (simp add: same_def d_def xr_def yr_def xm_def ym_def x_range_def y_range_def)
  have rot: "rotated lines (b0, b1, b2, b3) = (\<not> same)" by (simp add: rotated_def an)
  have nonneg: "0 \<le> xr" "0 \<le> yr"
    using values_finite[of lines] values_nonempty[OF wf]
    by (simp_all add: xr_def yr_def x_range_def y_range_def)
  have bpos: "0 < b2 - b0" "0 < b3 - b1" using bx by simp_all
  have dpos: "0 < d"
  proof -
    have "0 < xr / (b2 - b0) \<or> 0 < yr / (b3 - b1)" "0 < xr / (b3 - b1) \<or> 0 < yr / (b2 - b0)"
      using extent bpos by (auto simp: xr_def yr_def)
    then show ?thesis unfolding d_def by (auto simp: less_max_iff_disj)
  qed
  have pt: "\<exists>q. scale_point (\<not> same) flip (if same then xm else ym) (if same then ym else xm)
                 ((b0 + b2) / 2) ((b1 + b3) / 2) d p = Inr q \<and> in_box (b0, b1, b2, b3) q"
    if "line \<in> set lines" "p \<in> set line" for line p
  proof -
    have mem: "fst p \<in> x_values lines" "snd p \<in> y_values lines"
      using that by (auto simp: x_values_def y_values_def)
    have wx: "\<bar>fst p - xm\<bar> \<le> xr / 2" unfolding xm_def xr_def x_range_def
      by (rule within_range[OF values_finite(1) mem(1)])
    have wy: "\<bar>snd p - ym\<bar> \<le> yr / 2" unfolding ym_def yr_def y_range_def
      by (rule within_range[OF values_finite(2) mem(2)])
    show ?thesis
    proof (cases same)
      case True
      have "xr / (b2 - b0) \<le> d" "yr / (b3 - b1) \<le> d" using True by (simp_all add: d_def)
      then show ?thesis using True wx wy dpos bx mirror rot
        by (intro scale_point_in_box[where xr = xr and yr = yr]) simp_all
    next
      case False
      have "yr / (b2 - b0) \<le> d" "xr / (b3 - b1) \<le> d" using False by (simp_all add: d_def)
      then show ?thesis using False wx wy dpos bx mirror rot
        by (intro scale_point_in_box[where xr = yr and yr = xr]) simp_all
    qed
  qed
  have ln: "\<exists>line'. for_all (scale_point (\<not> same) flip (if same then xm else ym) (if same then ym else xm)
                 ((b0 + b2) / 2) ((b1 + b3) / 2) d) line = Inr line' \<and> (\<forall>p\<in>set line'. in_box (b0, b1, b2, b3) p)"
    if "line \<in> set lines" for line
    using pt[OF that] by (intro for_all_total[where P = "in_box (b0, b1, b2, b3)"]) simp
  have "\<exists>lines'. for_all (for_all (scale_point (\<not> same) flip (if same then xm else ym) (if same then ym else xm)
                 ((b0 + b2) / 2) ((b1 + b3) / 2) d)) lines = Inr lines' \<and>
            (\<forall>line\<in>set lines'. \<forall>p\<in>set line. in_box (b0, b1, b2, b3) p)"
    using ln by (intro for_all_total[where P = "\<lambda>line'. \<forall>p\<in>set line'. in_box (b0, b1, b2, b3) p"]) simp
  then show ?thesis by (simp add: rotate_and_scale_lines_def an)
qed

theorem rotate_and_scale_lines_fit_witness:
  "rotate_and_scale_lines [[(0, 0), (4, 2)]] False True (-8, 4, 8, 13) = Inr [[(8, 9 / 2), (-8, 25 / 2)]]
   \<and> in_box (-8, 4, 8, 13) (8, 9 / 2) \<and> in_box (-8, 4, 8, 13) (-8, 25 / 2)"
proof -
  have run: "rotate_and_scale_lines [[(0, 0), (4, 2)]] False True (-8, 4, 8, 13) = Inr [[(8, 9 / 2), (-8, 25 / 2)]]"
    by (simp add: rotate_and_scale_lines_def analyse_lines_def py_min_def py_max_def py_div_def
        scale_point_def Let_def)
  have "\<exists>lines'. rotate_and_scale_lines [[(0, 0), (4, 2)]] False True (-8, 4, 8, 13) = Inr lines' \<and>
           (\<forall>line\<in>set lines'. \<forall>p\<in>set line. in_box (-8, 4, 8, 13) p)"
    by (rule rotate_and_scale_lines_fit) (simp_all add: eval_values)
  then show ?thesis unfolding run by simp
qed

text \<open>
  The claim as stated fails: x is negated after the shift to the mid-point of the
  rectangle, so a rectangle that is not symmetric about \<open>x = 0\<close> is left on negation, with
  \<open>flip\<close> true (no rotation) and with \<open>flip\<close> false (rotation); plot data that is a
  single point divides by a zero divider; and plot data without lines has no minimum.
\<close>

theorem rotate_and_scale_lines_fit_counterexample:
  "rotate_and_scale_lines [[(0, 0), (10, 10)]] False True (0, 0, 10, 10) = Inr [[(0, 0), (-10, 10)]]
   \<and> \<not> in_box (0, 0, 10, 10) (-10, 10)
   \<and> rotate_and_scale_lines [[(0, 0), (10, 2)]] False False (0, 0, 2, 10) = Inr [[(0, 0), (-2, 10)]]
   \<and> \<not> in_box (0, 0, 2, 10) (-2, 10)
   \<and> rotate_and_scale_lines [[(1, 1)]] False False (0, 0, 10, 10) = Inl ZeroDivisionError
   \<and> rotate_and_scale_lines [[(1, 1)]] False True (0, 0, 10, 10) = Inl ZeroDivisionError
   \<and> rotate_and_scale_lines [] False True (0, 0, 10, 10) = Inl ValueError"
  by (simp add: rotate_and_scale_lines_def analyse_lines_def py_min_def py_max_def py_div_def
      scale_point_def Let_def in_box_def)

section \<open>The motion interpolator\<close>

subsection \<open>Actions that return\<close>

lemma do_then_Inr: "m s = Inr (a, s') \<Longrightarrow> do_then m f s = f a s'"
  by (simp add: do_then_def)

lemma do_then_Inl: "m s = Inl e \<Longrightarrow> do_then m f s = Inl e"
  by (simp add: do_then_def)

lemma do_then_returns:
  "do_then m f s = Inr r \<longleftrightarrow> (\<exists>a s'. m s = Inr (a, s') \<and> f a s' = Inr r)"
  by (auto simp: do_then_def split: sum.splits)


lemma sleep_returns:
  "sleep t s = Inr (u, s') \<longleftrightarrow> 0 \<le> t \<and> s' = s\<lparr>events := events s @ [Sleep t]\<rparr>"
  by (auto simp: sleep_def)

lemma set_angle_returns:
  "set_angle i a s = Inr (u, s') \<longleftrightarrow>
     i < length (last_angles s) \<and>
     s' = s\<lparr>events := events s @ [Servo i (if i = 0 then a + 120 else a)],
            last_angles := (last_angles s)[i := (if i = 0 then a + 120 else a)]\<rparr>"
  by (auto simp: set_angle_def Let_def)


lemma for_each_invariant:
  assumes step: "\<And>a s s'. body a s = Inr ((), s') \<Longrightarrow> g s' = g s"
  shows "for_each xs body s = Inr ((), s') \<Longrightarrow> g s' = g s"
proof (induction xs arbitrary: s)
  case Nil
  then show ?case by simp
next
  case (Cons a as)
  from Cons.prems obtain s1 where s1: "body a s = Inr ((), s1)" "for_each as body s1 = Inr ((), s')"
    by (auto split: sum.splits)
  show ?case using Cons.IH[OF s1(2)] step[OF s1(1)] by simp
qed


subsection \<open>The two branches of \<open>xy\<close>\<close>

lemma pen_returns:
  "(if dr then pen_down else pen_up) s = Inr (u, s1) \<longleftrightarrow>
     pin s < length (last_angles s) \<and> 0 \<le> transition_time s \<and>
     s1 = s\<lparr>events := events s @
              [Servo (pin s) (if pin s = 0 then (if dr then angle_down s else angle_up s) + 120
                              else (if dr then angle_down s else angle_up s)),
               Sleep (transition_time s)],
            last_angles := (last_angles s)
              [pin s := (if pin s = 0 then (if dr then angle_down s else angle_up s) + 120
                         else (if dr then angle_down s else angle_up s))]\<rparr>"
  by (auto simp: pen_down_def pen_up_def do_then_returns set_angle_returns sleep_returns)

lemma xy_elided:
  assumes pin: "pin s = 2" and len: "2 < length (last_angles s)" and tt: "0 \<le> transition_time s"
    and same: "xy_to_angles (INNER_ARM s) (OUTER_ARM s) x y = Inr (last_angles s ! 0, last_angles s ! 1)"
  shows "xy x y w k dr s =
     Inr ((), s\<lparr>events := events s @ [Servo 2 (if dr then angle_down s else angle_up s),
                                        Sleep (transition_time s)],
               last_angles := (last_angles s)[2 := (if dr then angle_down s else angle_up s)],
               current_x := x, current_y := y\<rparr>)"
proof -
  define s1 where "s1 = s\<lparr>events := events s @ [Servo 2 (if dr then angle_down s else angle_up s),
                                        Sleep (transition_time s)],
               last_angles := (last_angles s)[2 := (if dr then angle_down s else angle_up s)]\<rparr>"
  have pen: "(if dr then pen_down else pen_up) s = Inr ((), s1)"
    unfolding pen_returns using pin len tt by (simp add: s1_def)
  have ang: "lift (xy_to_angles (INNER_ARM s1) (OUTER_ARM s1) x y) s1 = Inr ((last_angles s ! 0, last_angles s ! 1), s1)"
    using same by (simp add: lift_def s1_def)
  have get: "get_angles s1 = Inr ((last_angles s ! 0, last_angles s ! 1), s1)"
    using len by (simp add: get_angles_def s1_def)
  have "xy x y w k dr s = Inr ((), s1\<lparr>current_x := x, current_y := y\<rparr>)"
    unfolding xy_def Let_def by (simp add: do_then_def pen ang get)
  then show ?thesis by (simp add: s1_def)
qed

lemma xy_moving:
  fixes k w :: real and dr :: bool
  assumes pin: "pin s = 2" and len: "2 < length (last_angles s)" and tt: "0 \<le> transition_time s"
    and ang: "xy_to_angles (INNER_ARM s) (OUTER_ARM s) x y = Inr (a1, a2)"
    and ne: "(a1, a2) \<noteq> (last_angles s ! 0, last_angles s ! 1)"
  defines "len \<equiv> sqrt ((x - current_x s)\<^sup>2 + (y - current_y s)\<^sup>2)"
  defines "n \<equiv> no_of_steps len k"
  defines "s1 \<equiv> s\<lparr>events := events s @ [Servo 2 (if dr then angle_down s else angle_up s), Sleep (transition_time s)],
            last_angles := (last_angles s)[2 := (if dr then angle_down s else angle_up s)]\<rparr>"
  shows "xy x y w k dr s =
       do_then (for_each [0..<nat n]
                (xy_step ((x - current_x s) / real_of_int n) ((y - current_y s) / real_of_int n) len (py_or w (wait s)) n))
               (\<lambda>_. sleep (len * py_or w (wait s) / 10)) s1"
proof -
  have f: "wait s1 = wait s" "current_x s1 = current_x s" "current_y s1 = current_y s"
    by (simp_all add: s1_def)
  have pen: "(if dr then pen_down else pen_up) s = Inr ((), s1)"
    unfolding pen_returns using pin len tt by (simp add: s1_def)
  have ang1: "lift (xy_to_angles (INNER_ARM s1) (OUTER_ARM s1) x y) s1 = Inr ((a1, a2), s1)"
    using ang by (simp add: lift_def s1_def)
  have get: "get_angles s1 = Inr ((last_angles s ! 0, last_angles s ! 1), s1)"
    using len by (simp add: get_angles_def s1_def)
  show ?thesis
    unfolding xy_def Let_def using ne
    by (auto simp add: do_then_def pen ang1 get f len_def n_def)
qed



subsection \<open>Runs of the plotter of \<open>bg.py\<close>\<close>

lemma init_bg_py: "init 8 8 0 (Some (-8, 4, 8, 13)) 10 0 = Inr ((), bg_py)"
  by (simp add: init_def do_then_def set_angle_def sleep_def pen_up_def pen_down_def py_or_def
      bg_py_def Let_def)

lemma sqrt_128: "sqrt 128 = 8 * sqrt 2"
proof -
  have "sqrt 128 = sqrt (64 * 2)" by simp
  also have "\<dots> = sqrt 64 * sqrt 2" by (rule real_sqrt_mult)
  also have "sqrt 64 = 8" using real_sqrt_abs[of 8] by simp
  finally show ?thesis .
qed

lemma sqrt_128_bounds: "11 \<le> sqrt 128" "sqrt 128 \<le> 12"
proof -
  have "sqrt (11\<^sup>2) \<le> sqrt 128" by (simp only: real_sqrt_le_iff) simp
  then show "11 \<le> sqrt 128" by simp
  have "sqrt 128 \<le> sqrt (12\<^sup>2)" by (simp only: real_sqrt_le_iff) simp
  then show "sqrt 128 \<le> 12" by simp
qed

lemma arcsin_half_sqrt2: "arcsin (sqrt 2 / 2) = pi / 4"
  using arcsin_sin[of "pi / 4"] by (simp add: sin_45)

lemma arccos_half_sqrt2: "arccos (sqrt 2 / 2) = pi / 4"
  using arccos_cos[of "pi / 4"] by (simp add: cos_45)

lemma xy_to_angles_top: "xy_to_angles 8 8 0 16 = Inr (0, 0)"
  by (simp add: xy_to_angles_def math_sqrt_def sqrt_256 py_div_def math_asin_def math_acos_def
      math_degrees_def)

lemma xy_to_angles_rest: "xy_to_angles 8 8 (-8) 8 = Inr (-90, 90)"
proof -
  have pos: "0 < sqrt ((- 8)\<^sup>2 + (8::real)\<^sup>2)" by simp
  have le: "\<not> 16 < sqrt 128" using sqrt_128_bounds(2) by simp
  have q: "8 / sqrt 128 = sqrt 2 / 2" unfolding sqrt_128 by (simp add: field_simps)
  have s2: "sqrt 2 \<le> 2" using sqrt_128_bounds(2) unfolding sqrt_128 by simp
  have s3: "- 2 \<le> sqrt 2" using real_sqrt_ge_zero[of 2] by linarith
  have "arcsin (- (sqrt 2 / 2)) = - arcsin (sqrt 2 / 2)" using s2 s3 by (intro arcsin_minus) simp_all
  then have f2: "arcsin (- (8 / sqrt 128)) = - (pi / 4)"
    unfolding q by (simp add: arcsin_half_sqrt2)
  have f3: "arccos (8 / sqrt 128) = pi / 4" unfolding q by (rule arccos_half_sqrt2)
  have "xy_to_angles 8 8 (-8) 8 =
     (let h = sqrt ((- 8)\<^sup>2 + 8\<^sup>2) in
      if h > 8 + 8 then Inl CannotReach
      else if h < \<bar>8 - 8\<bar> then Inl ValueError
      else Inr (math_degrees (arcsin (- 8 / h) - arccos ((h\<^sup>2 + 8\<^sup>2 - 8\<^sup>2) / (2 * h * 8))),
                math_degrees (pi - arccos ((8\<^sup>2 + 8\<^sup>2 - h\<^sup>2) / (2 * 8 * 8)))))"
    by (rule xy_to_angles_unfold[OF _ _ pos]) simp_all
  then show ?thesis using le by (simp add: f2 f3 math_degrees_def)
qed

lemma jogged_by_set_angles: "set_angles (-120) 0 bg_py = Inr ((), jogged)"
  by (simp add: set_angles_def do_then_def set_angle_def Let_def bg_py_def jogged_def)




lemma bg_py_ready: "pin bg_py = 2" "2 < length (last_angles bg_py)" "0 \<le> transition_time bg_py"
  by (simp_all add: bg_py_def)



lemma run_in_place:
  "xy (-8) 8 0 10 False bg_py =
     Inr ((), bg_py\<lparr>events := events bg_py @ [Servo 2 10, Sleep 0.25, Servo 0 30, Servo 1 90, Sleep 0]\<rparr>)"
proof -
  have ang: "xy_to_angles (INNER_ARM bg_py) (OUTER_ARM bg_py) (-8) 8 = Inr (-90, 90)"
    by (simp add: bg_py_def xy_to_angles_rest)
  have ne: "(-90, 90) \<noteq> (last_angles bg_py ! 0, last_angles bg_py ! 1)" by (simp add: bg_py_def)
  have len: "sqrt ((-8 - current_x bg_py)\<^sup>2 + (8 - current_y bg_py)\<^sup>2) = 0"
    by (simp add: bg_py_def)
  have one: "no_of_steps 0 10 = 1" by (simp add: no_of_steps_def py_int_def py_or_def)
  note mv = xy_moving[where s = bg_py and x = "-8" and y = 8 and k = 10 and w = 0 and dr = False,
      OF bg_py_ready ang ne]
  show ?thesis
    unfolding mv len one
    by (simp add: do_then_def xy_step_def lift_def xy_to_angles_rest set_angles_def set_angle_def
        sleep_def py_or_def Let_def bg_py_def)
qed

lemma jogged_ready: "pin jogged = 2" "2 < length (last_angles jogged)" "0 \<le> transition_time jogged"
  by (simp_all add: jogged_def bg_py_def)

lemma run_elided:
  "xy 0 16 0 10 False jogged =
     Inr ((), jogged\<lparr>events := events jogged @ [Servo 2 10, Sleep 0.25],
                     current_x := 0, current_y := 16\<rparr>)"
proof -
  have ang: "xy_to_angles (INNER_ARM jogged) (OUTER_ARM jogged) 0 16
      = Inr (last_angles jogged ! 0, last_angles jogged ! 1)"
    by (simp add: jogged_def bg_py_def xy_to_angles_top)
  show ?thesis
    unfolding xy_elided[OF jogged_ready ang] by (simp add: jogged_def bg_py_def)
qed

subsection \<open>Number of interpolation steps\<close>




subsection \<open>Move elision\<close>

text \<open>
  Claim C6, amended. Whenever \<open>xy\<close> is called with a target whose computed joint angles
  equal the pair that \<open>get_angles\<close> reports, it sets the pen first, which sends one command
  to the pen servo on channel 2 and waits for the pen's transition time; it sends no
  command to the shoulder or the elbow servo, waits no pacing delay, and sets
  \<open>current_x\<close> and \<open>current_y\<close> to the target.
\<close>

theorem xy_elision:
  assumes "pin s = 2" and "2 < length (last_angles s)" and "0 \<le> transition_time s"
    and "xy_to_angles (INNER_ARM s) (OUTER_ARM s) x y = Inr (last_angles s ! 0, last_angles s ! 1)"
  shows "xy x y w k dr s =
     Inr ((), s\<lparr>events := events s @ [Servo 2 (if dr then angle_down s else angle_up s),
                                        Sleep (transition_time s)],
               last_angles := (last_angles s)[2 := (if dr then angle_down s else angle_up s)],
               current_x := x, current_y := y\<rparr>)"
  using assms by (rule xy_elided)

theorem xy_elision_witness:
  "xy_to_angles (INNER_ARM jogged) (OUTER_ARM jogged) 0 16 = Inr (0, 0)
   \<and> get_angles jogged = Inr ((0, 0), jogged)
   \<and> xy 0 16 0 10 True jogged =
     Inr ((), jogged\<lparr>events := events jogged @ [Servo 2 0, Sleep 0.25],
                     last_angles := [0, 0, 0], current_x := 0, current_y := 16\<rparr>)"
proof -
  have ang: "xy_to_angles (INNER_ARM jogged) (OUTER_ARM jogged) 0 16
      = Inr (last_angles jogged ! 0, last_angles jogged ! 1)"
    by (simp add: jogged_def bg_py_def xy_to_angles_top)
  from xy_elision[OF jogged_ready ang, of 0 10 True] show ?thesis
    by (simp add: jogged_def bg_py_def xy_to_angles_top get_angles_def)
qed

text \<open>
  The claim as stated fails twice. An elided call does send a command: after
  \<open>bg.set_angles(-120, 0)\<close> the call \<open>xy(0, 16)\<close> is elided and sends the pen command.
  And a move to the exact current position is not elided: on the plotter just
  constructed, at \<open>(-8, 8)\<close>, the call \<open>xy(-8, 8)\<close> computes the angles \<open>(-90, 90)\<close>, finds
  \<open>(30, 90)\<close> cached, and commands both joints.
\<close>

theorem xy_elision_counterexample:
  "xy_to_angles (INNER_ARM jogged) (OUTER_ARM jogged) 0 16 = Inr (0, 0)
   \<and> get_angles jogged = Inr ((0, 0), jogged)
   \<and> xy 0 16 0 10 False jogged =
       Inr ((), jogged\<lparr>events := events jogged @ [Servo 2 10, Sleep 0.25],
                       current_x := 0, current_y := 16\<rparr>)
   \<and> current_x bg_py = -8 \<and> current_y bg_py = 8
   \<and> xy (-8) 8 0 10 False bg_py =
       Inr ((), bg_py\<lparr>events := events bg_py @
                        [Servo 2 10, Sleep 0.25, Servo 0 30, Servo 1 90, Sleep 0]\<rparr>)"
  using run_elided run_in_place by (simp add: jogged_def bg_py_def xy_to_angles_top get_angles_def)

subsection \<open>Final position\<close>




section \<open>Drawing methods and hardware\<close>

subsection \<open>Refusal without bounds\<close>

text \<open>
  Claim C8. When no bounds are passed and none are set on the plotter, \<open>plot_lines\<close>,
  \<open>plot_file\<close>, \<open>test_pattern\<close> and \<open>box\<close> return their message of refusal; they raise
  nothing, and the plotter they return is the plotter they were given: no event is added,
  and position, cached angles and every other field are unchanged.
\<close>

theorem missing_bounds_refusal:
  assumes "bounds s = None"
  shows "plot_lines lines w k rot flip None s =
           Inr (Some ''Line plotting is only possible when BrachioGraph.bounds is set.'', s)
       \<and> plot_file files filename w k None s =
           Inr (Some ''File plotting is only possible when BrachioGraph.bounds is set.'', s)
       \<and> test_pattern None w k repeat s =
           Inr (Some ''Plotting a test pattern is only possible when BrachioGraph.bounds is set.'', s)
       \<and> box None w k repeat reverse s =
           Inr (Some ''Box drawing is only possible when BrachioGraph.bounds is set.'', s)"
  using assms by (simp add: plot_lines_def plot_file_def test_pattern_def box_def bounds_or_def)

theorem missing_bounds_refusal_witness:
  "plot_lines [[(0, 0), (4, 2)]] 0 10 False False None (bg_py\<lparr>bounds := None\<rparr>) =
           Inr (Some ''Line plotting is only possible when BrachioGraph.bounds is set.'', bg_py\<lparr>bounds := None\<rparr>)
   \<and> plot_file (\<lambda>name. Inr [[(0, 0), (4, 2)]]) ''images/crow.json'' 0 10 None (bg_py\<lparr>bounds := None\<rparr>) =
           Inr (Some ''File plotting is only possible when BrachioGraph.bounds is set.'', bg_py\<lparr>bounds := None\<rparr>)
   \<and> test_pattern None 0 10 1 (bg_py\<lparr>bounds := None\<rparr>) =
           Inr (Some ''Plotting a test pattern is only possible when BrachioGraph.bounds is set.'', bg_py\<lparr>bounds := None\<rparr>)
   \<and> box None 0 10 1 False (bg_py\<lparr>bounds := None\<rparr>) =
           Inr (Some ''Box drawing is only possible when BrachioGraph.bounds is set.'', bg_py\<lparr>bounds := None\<rparr>)"
proof -
  have none: "bounds (bg_py\<lparr>bounds := None\<rparr>) = None" by simp
  show ?thesis
    using missing_bounds_refusal[OF none, of "[[(0, 0), (4, 2)]]" 0 10 False False
        "\<lambda>name. Inr [[(0, 0), (4, 2)]]" "''images/crow.json''" 1 False]
    by simp
qed

subsection \<open>The offset in the cached angles\<close>



subsection \<open>The arguments \<open>rotate\<close> and \<open>flip\<close> of \<open>plot_lines\<close>\<close>

text \<open>
  Claim C10. Two calls of \<open>plot_lines\<close> that differ only in \<open>rotate\<close> and \<open>flip\<close> have the
  same outcome: the same events in the same order, the same final plotter, the same value
  or the same exception.
\<close>

theorem plot_lines_ignores_rotate_flip:
  "plot_lines lines w k rotate_a flip_a bnds s = plot_lines lines w k rotate_b flip_b bnds s"
  by (simp add: plot_lines_def)

theorem plot_lines_ignores_rotate_flip_witness:
  "plot_lines [[(0, 0), (4, 2)]] 0 10 True False (Some (-8, 4, 8, 13)) bg_py
     = plot_lines [[(0, 0), (4, 2)]] 0 10 False True (Some (-8, 4, 8, 13)) bg_py"
  by (rule plot_lines_ignores_rotate_flip)

end
